theory Spec2Isabelle
  imports Complex_Main "HOL-Library.Word" "HOL-Library.Sublist"
begin

section \<open>JavaScript values\<close>

text \<open>
  A JavaScript string is a sequence of UTF-16 code units. The regular expression of
  \<^verbatim>\<open>processDocument\<close> has no \<^verbatim>\<open>u\<close> flag, so it works on code units, and two
  of the four line terminators (U+2028, U+2029) lie outside Latin-1: the code unit is a
  16-bit word. \<open>lit\<close> embeds an ASCII literal of the source.
\<close>

type_synonym code_unit = "16 word"
type_synonym jsstring = "code_unit list"

definition lit :: "string \<Rightarrow> jsstring" where
  "lit s = map of_char s"

definition newline :: code_unit where
  "newline = 0x000A"

text \<open>
  \<^verbatim>\<open>Number::toString\<close> on an array index or a length: a non-negative integer
  below \<open>2^32\<close>, printed in decimal without exponent.
\<close>

fun decimal :: "nat \<Rightarrow> jsstring" where
  "decimal n =
     (if n < 10 then [of_nat (48 + n)]
      else decimal (n div 10) @ [of_nat (48 + n mod 10)])"

declare decimal.simps [simp del]

text \<open>
  The values an object property can hold. Numbers are IEEE doubles that this code
  only stores and passes on: their type is a parameter \<open>'n\<close>, and the one place that
  prints them (\<^verbatim>\<open>ToString\<close>) takes the printer as an argument.
\<close>

datatype 'n jsvalue =
    JUndefined
  | JNull
  | JBool bool
  | JNum 'n
  | JStr jsstring
  | JArr "'n jsvalue list"
  | JObj "(jsstring \<times> 'n jsvalue) list"

type_synonym 'n object = "jsstring \<rightharpoonup> 'n jsvalue"

text \<open>\<^verbatim>\<open>Array.prototype.join\<close> on an array of strings.\<close>

fun join :: "jsstring \<Rightarrow> jsstring list \<Rightarrow> jsstring" where
  "join sep [] = []"
| "join sep [x] = x"
| "join sep (x # y # ys) = x @ sep @ join sep (y # ys)"

fun nullish :: "'n jsvalue \<Rightarrow> bool" where
  "nullish JUndefined = True"
| "nullish JNull = True"
| "nullish _ = False"

text \<open>
  \<^verbatim>\<open>ToString\<close>: a string is itself; an array prints its elements joined by a comma,
  \<^verbatim>\<open>null\<close> and \<^verbatim>\<open>undefined\<close> elements as the empty string; a plain object prints
  as \<^verbatim>\<open>[object Object]\<close>.
\<close>

fun toString :: "('n \<Rightarrow> jsstring) \<Rightarrow> 'n jsvalue \<Rightarrow> jsstring" where
  "toString numberToString JUndefined = lit ''undefined''"
| "toString numberToString JNull = lit ''null''"
| "toString numberToString (JBool b) = (if b then lit ''true'' else lit ''false'')"
| "toString numberToString (JNum n) = numberToString n"
| "toString numberToString (JStr s) = s"
| "toString numberToString (JArr xs) =
     join (lit '','')
       (map (\<lambda>v. if nullish v then [] else toString numberToString v) xs)"
| "toString numberToString (JObj kvs) = lit ''[object Object]''"

text \<open>\<^verbatim>\<open>xs.join(sep)\<close> on an array of arbitrary values.\<close>

definition array_join :: "('n \<Rightarrow> jsstring) \<Rightarrow> jsstring \<Rightarrow> 'n jsvalue list \<Rightarrow> jsstring" where
  "array_join numberToString sep xs =
     join sep (map (\<lambda>v. if nullish v then [] else toString numberToString v) xs)"

text \<open>\<^verbatim>\<open>a ?? b\<close>, \<^verbatim>\<open>obj.k\<close>, \<^verbatim>\<open>"k" in obj\<close> and \<^verbatim>\<open>obj?.k\<close>.\<close>

definition nullish_coalesce :: "'n jsvalue \<Rightarrow> 'n jsvalue \<Rightarrow> 'n jsvalue" where
  "nullish_coalesce a b = (if nullish a then b else a)"

definition get_property :: "'n object \<Rightarrow> jsstring \<Rightarrow> 'n jsvalue" where
  "get_property obj k = (case obj k of None \<Rightarrow> JUndefined | Some v \<Rightarrow> v)"

definition has_property :: "jsstring \<Rightarrow> 'n object \<Rightarrow> bool" where
  "has_property k obj \<longleftrightarrow> obj k \<noteq> None"

definition optional_get :: "'n object option \<Rightarrow> jsstring \<Rightarrow> 'n jsvalue" where
  "optional_get obj k = (case obj of None \<Rightarrow> JUndefined | Some md \<Rightarrow> get_property md k)"

text \<open>\<^verbatim>\<open>xs[i]\<close>: reading past the end of an array gives \<^verbatim>\<open>undefined\<close>.\<close>

definition index_array :: "'a list \<Rightarrow> nat \<Rightarrow> 'a option" where
  "index_array xs i = (if i < length xs then Some (xs ! i) else None)"

text \<open>\<^verbatim>\<open>xs.slice(start, end)\<close> for non-negative indices.\<close>

definition slice :: "nat \<Rightarrow> nat \<Rightarrow> 'a list \<Rightarrow> 'a list" where
  "slice start end xs = drop start (take end xs)"

text \<open>
  \<^verbatim>\<open>[...new Set(xs)]\<close>: the constructor adds the elements one by one, \<^verbatim>\<open>add\<close>
  appends a value that is not yet present (strings are compared by content), and
  spreading the set lists the values in insertion order.
\<close>

definition set_add :: "'a list \<Rightarrow> 'a \<Rightarrow> 'a list" where
  "set_add s x = (if x \<in> set s then s else s @ [x])"

definition new_Set :: "'a list \<Rightarrow> 'a list" where
  "new_Set xs = foldl set_add [] xs"


section \<open>Data model\<close>

text \<open>
  \<^verbatim>\<open>Vector\<close> and \<^verbatim>\<open>ScoredVector\<close> of the vector store's client: the scored vector
  is a vector with a score. The record's extension slot stands for every further
  property of the object (\<^verbatim>\<open>sparseValues\<close>, ...), which \<^verbatim>\<open>{...match}\<close> copies.
\<close>

record 'n vector =
  id' :: jsstring
  values' :: "'n list option"
  metadata :: "'n object option"

record 'n scored_vector = "'n vector" +
  score :: "'n option"

record ('n, 'a) query_response =
  matches :: "('n, 'a) scored_vector_scheme list option"
  namespace :: "jsstring option"

record 'n document =
  pageContent :: jsstring
  metadata_doc :: "'n object"

record 'l answer_result =
  answer :: jsstring
  documentLinks :: "'l list"


section \<open>services/pinecone.ts\<close>

subsection \<open>formatPineconeResponse\<close>

definition formatMatch ::
  "('n, 'a) scored_vector_scheme \<Rightarrow> ('n, 'a) scored_vector_scheme" where
  "formatMatch match =
     (case metadata match of
        None \<Rightarrow> match
      | Some md \<Rightarrow>
          if has_property (lit ''pageContent'') md \<and> has_property (lit ''docLink'') md
          then match\<lparr>metadata :=
                 Some [lit ''pageContent'' \<mapsto> get_property md (lit ''pageContent''),
                       lit ''docLink'' \<mapsto> get_property md (lit ''docLink'')]\<rparr>
          else match)"

definition formatPineconeResponse ::
  "('n, 'a, 'b) query_response_scheme \<Rightarrow> ('n, 'a) query_response" where
  "formatPineconeResponse pineconeResponse =
     \<lparr>matches = map_option (map formatMatch) (matches pineconeResponse),
      namespace = namespace pineconeResponse\<rparr>"

subsection \<open>queryLanguageModelWithPineconeResponse\<close>

text \<open>
  The effects of the function: the lines written by \<^verbatim>\<open>console.log\<close> and the calls
  made to the completion endpoint (\<^verbatim>\<open>chain.call\<close>), each with the key of the model,
  the context document and the question.
\<close>

record world =
  console_log :: "jsstring list"
  completion_calls :: "(jsstring \<times> jsstring \<times> jsstring) list"

definition log :: "jsstring \<Rightarrow> world \<Rightarrow> world" where
  "log line w = w\<lparr>console_log := console_log w @ [line]\<rparr>"

definition instructions :: jsstring where
  "instructions = lit (''You're an AI assistant. Based on the following excerpts from a long document, provide a conversational answer to the question asked. If the answer isn't in the context, simply respond with 'Hmm, I'm not sure.' Don't invent an answer. If the question isn't related to the context, state that you are programmed to answer questions relevant to the given context. Remember, you cannot use images or visual content to form your answer. Do the answer in less than 2000 characters.'')"

text \<open>
  \<^verbatim>\<open>queryResponse?.matches?.length\<close> as a condition: it holds when \<^verbatim>\<open>matches\<close>
  is an array with at least one element, and the branch then works on that array.
\<close>

definition found_matches ::
  "('n, 'a) query_response \<Rightarrow> ('n, 'a) scored_vector_scheme list option" where
  "found_matches queryResponse =
     (case matches queryResponse of
        None \<Rightarrow> None
      | Some ms \<Rightarrow> if length ms \<noteq> 0 then Some ms else None)"

definition concatenatedPageContent ::
  "('n \<Rightarrow> jsstring) \<Rightarrow> ('n, 'a) scored_vector_scheme list \<Rightarrow> jsstring" where
  "concatenatedPageContent numberToString ms =
     array_join numberToString (lit '' '')
       (map (\<lambda>match. nullish_coalesce (optional_get (metadata match) (lit ''pageContent''))
                        (JStr (lit '''')))
          ms)"

definition documentLinks_of :: "('n, 'a) scored_vector_scheme list \<Rightarrow> 'n jsvalue list" where
  "documentLinks_of ms =
     map (\<lambda>match. nullish_coalesce (optional_get (metadata match) (lit ''docLink''))
                     (JStr (lit '''')))
       ms"

text \<open>
  \<open>chain_call\<close> is the completion endpoint: building the model and the chain from the
  key and calling it with the context document and the question. It returns the text
  of the answer or throws. A function that ends without \<^verbatim>\<open>return\<close> gives
  \<^verbatim>\<open>undefined\<close>, here \<open>None\<close>.
\<close>

definition queryLanguageModelWithPineconeResponse ::
  "('n \<Rightarrow> jsstring) \<Rightarrow> (jsstring \<Rightarrow> jsstring \<Rightarrow> jsstring \<Rightarrow> 'e + jsstring) \<Rightarrow>
   ('n, 'a) query_response \<Rightarrow> jsstring \<Rightarrow> jsstring \<Rightarrow> world \<Rightarrow>
   ('e + 'n jsvalue answer_result option) \<times> world" where
  "queryLanguageModelWithPineconeResponse numberToString chain_call queryResponse question
       openAIApiKey w =
     (let w1 = log (lit ''Asking question: '' @ question @ lit ''...'') w in
      case found_matches queryResponse of
        Some ms \<Rightarrow>
          (let w2 = log (lit ''Found '' @ decimal (length ms) @ lit '' matches...'') w1;
               preparedQuestion = instructions @ [newline, newline] @ question;
               content = concatenatedPageContent numberToString ms;
               links = documentLinks_of ms;
               w3 = w2\<lparr>completion_calls :=
                        completion_calls w2 @ [(openAIApiKey, content, preparedQuestion)]\<rparr>
           in case chain_call openAIApiKey content preparedQuestion of
                Inl e \<Rightarrow> (Inl e, w3)
              | Inr text \<Rightarrow>
                  (Inr (Some \<lparr>answer = text, documentLinks = links\<rparr>),
                   log (lit ''Answer: '' @ text) w3))
      | None \<Rightarrow>
          (Inr None,
           log (lit ''Since there are no matches, GPT-3.5 will not be queried.'') w1))"

subsection \<open>processDocument\<close>

text \<open>
  The line terminators that \<^verbatim>\<open>.\<close> does not match, and the search of
  \<^verbatim>\<open>text.match(/Link: (.+)/)\<close>: the leftmost position where the pattern matches,
  the group taking as many characters as it can.
\<close>

definition isLineTerminator :: "code_unit \<Rightarrow> bool" where
  "isLineTerminator c \<longleftrightarrow> c = 0x000A \<or> c = 0x000D \<or> c = 0x2028 \<or> c = 0x2029"

definition match_here :: "jsstring \<Rightarrow> jsstring option" where
  "match_here s =
     (if take 6 s = lit ''Link: '' then
        (case takeWhile (\<lambda>c. \<not> isLineTerminator c) (drop 6 s) of
           [] \<Rightarrow> None
         | c # cs \<Rightarrow> Some (c # cs))
      else None)"

fun regex_match :: "jsstring \<Rightarrow> jsstring option" where
  "regex_match [] = match_here []"
| "regex_match (c # cs) =
     (case match_here (c # cs) of
        Some g \<Rightarrow> Some g
      | None \<Rightarrow> regex_match cs)"

definition extractDocumentLink :: "jsstring \<Rightarrow> jsstring" where
  "extractDocumentLink text =
     (case regex_match text of Some documentLinkMatch \<Rightarrow> documentLinkMatch | None \<Rightarrow> lit '''')"

text \<open>\<^verbatim>\<open>s.replace(/\n/g, " ")\<close>.\<close>

definition replace_newlines :: "jsstring \<Rightarrow> jsstring" where
  "replace_newlines s = map (\<lambda>c. if c = newline then 0x0020 else c) s"

text \<open>
  The text splitter, the embedding endpoint and \<^verbatim>\<open>JSON.stringify\<close> are outside the
  repository: they are arguments. The first two are asynchronous calls that can fail.
\<close>

definition buildVector ::
  "('n \<Rightarrow> jsstring) \<Rightarrow> ('n jsvalue \<Rightarrow> 'n jsvalue) \<Rightarrow> 'n jsvalue \<Rightarrow> jsstring \<Rightarrow>
   'n list list \<Rightarrow> nat \<times> 'n document \<Rightarrow> 'n vector" where
  "buildVector numberToString JSON_stringify txtPath documentLink embeddingsArrays ic =
     (case ic of (idx, chunk) \<Rightarrow>
        \<lparr>id' = toString numberToString txtPath @ lit ''_'' @ decimal idx,
         values' = index_array embeddingsArrays idx,
         metadata = Some ((metadata_doc chunk)
           (lit ''loc'' \<mapsto> JSON_stringify (get_property (metadata_doc chunk) (lit ''loc'')),
            lit ''pageContent'' \<mapsto> JStr (pageContent chunk),
            lit ''txtPath'' \<mapsto> txtPath,
            lit ''docLink'' \<mapsto> JStr documentLink))\<rparr>)"

definition processDocument ::
  "('n \<Rightarrow> jsstring) \<Rightarrow> ('n jsvalue \<Rightarrow> 'n jsvalue) \<Rightarrow>
   (jsstring list \<Rightarrow> 'e + 'n document list) \<Rightarrow>
   (jsstring \<Rightarrow> jsstring list \<Rightarrow> 'e + 'n list list) \<Rightarrow>
   'n document \<Rightarrow> jsstring \<Rightarrow> 'e + 'n vector list" where
  "processDocument numberToString JSON_stringify createDocuments embedDocuments doc
       openAIApiKey =
     (let txtPath = get_property (metadata_doc doc) (lit ''source'');
          text = pageContent doc;
          documentLink = extractDocumentLink text
      in case createDocuments [text] of
           Inl e \<Rightarrow> Inl e
         | Inr chunks \<Rightarrow>
             (case embedDocuments openAIApiKey
                     (map (\<lambda>chunk. replace_newlines (pageContent chunk)) chunks) of
                Inl e \<Rightarrow> Inl e
              | Inr embeddingsArrays \<Rightarrow>
                  Inr (map (buildVector numberToString JSON_stringify txtPath documentLink
                              embeddingsArrays)
                         (enumerate 0 chunks))))"

subsection \<open>upsertVectors\<close>






section \<open>read/routeDiscord.ts\<close>

text \<open>
  What the handler does to the outside: the messages sent to the channel and the
  entries written by \<^verbatim>\<open>console.error\<close> (a label and the value that was thrown).
\<close>

record 'e discord =
  sent :: "jsstring list"
  console_error :: "(jsstring \<times> 'e) list"

definition channel_send :: "jsstring \<Rightarrow> 'e discord \<Rightarrow> 'e discord" where
  "channel_send content d = d\<lparr>sent := sent d @ [content]\<rparr>"

definition distinctDocumentLinks :: "jsstring list \<Rightarrow> jsstring list" where
  "distinctDocumentLinks links = new_Set links"

definition selectedDocumentLinks :: "jsstring list \<Rightarrow> jsstring list" where
  "selectedDocumentLinks links = slice 0 3 (distinctDocumentLinks links)"

definition renderLink :: "nat \<times> jsstring \<Rightarrow> jsstring" where
  "renderLink il =
     (case il of (index, link) \<Rightarrow>
        lit ''**Link '' @ decimal (index + 1) @ lit '':** <'' @ link @ lit ''>'')"

definition linksString :: "jsstring list \<Rightarrow> jsstring" where
  "linksString links =
     join [newline] (map renderLink (enumerate 0 (selectedDocumentLinks links)))"

text \<open>
  \<^verbatim>\<open>queryPineconeVectorStoreAndQueryLLM\<close> lives in \<^verbatim>\<open>utils\<close>, outside the sources at
  hand: the handler takes it as an argument. It returns an answer, \<^verbatim>\<open>undefined\<close>
  (\<open>None\<close>), or throws (\<open>Inl\<close>).
\<close>

definition handleReadCommand ::
  "('c \<Rightarrow> jsstring \<Rightarrow> jsstring \<Rightarrow> 'e + jsstring answer_result option) \<Rightarrow>
   jsstring \<Rightarrow> 'c \<Rightarrow> jsstring \<Rightarrow> 'e discord \<Rightarrow> 'e discord" where
  "handleReadCommand queryPineconeVectorStoreAndQueryLLM question pineconeClient
       pineconeTestIndex d =
     (case queryPineconeVectorStoreAndQueryLLM pineconeClient pineconeTestIndex question of
        Inr (Some result) \<Rightarrow>
          channel_send
            ([newline] @ lit ''**Answer:**'' @ [newline] @ lit '' '' @ answer result @ [newline]
               @ lit ''**Useful resources:**'' @ [newline] @ linksString (documentLinks result))
            d
      | Inr None \<Rightarrow> channel_send (lit ''No results found for your query.'') d
      | Inl error \<Rightarrow>
          channel_send (lit ''An error occurred while processing your request.'')
            (d\<lparr>console_error := console_error d @ [(lit ''Error:'', error)]\<rparr>))"

section \<open>Reference definitions, after the specification\<close>

text \<open>Order-preserving deduplication in which the first occurrence wins.\<close>

fun first_occurrences :: "'a list \<Rightarrow> 'a list" where
  "first_occurrences [] = []"
| "first_occurrences (x # xs) = x # first_occurrences (filter (\<lambda>y. y \<noteq> x) xs)"



text \<open>
  The pattern \<^verbatim>\<open>Link: <rest-of-line>\<close> occurs in a text at position \<open>k\<close>: the six
  characters of the marker stand there, followed by at least one character of the same
  line.
\<close>

definition link_pattern_at :: "jsstring \<Rightarrow> nat \<Rightarrow> bool" where
  "link_pattern_at text k \<longleftrightarrow>
     take 6 (drop k text) = lit ''Link: '' \<and> k + 6 < length text \<and>
     \<not> isLineTerminator (text ! (k + 6))"

definition rest_of_line :: "jsstring \<Rightarrow> jsstring" where
  "rest_of_line s = takeWhile (\<lambda>c. \<not> isLineTerminator c) s"


section \<open>Supporting lemmas\<close>

subsection \<open>Sets of links and batches\<close>

lemma foldl_set_add:
  "foldl set_add acc xs = acc @ first_occurrences (filter (\<lambda>x. x \<notin> set acc) xs)"
proof (induction xs arbitrary: acc)
  case Nil
  show ?case by simp
next
  case (Cons x xs)
  show ?case
  proof (cases "x \<in> set acc")
    case True
    then have "set_add acc x = acc" by (simp add: set_add_def)
    with True show ?thesis by (simp add: Cons.IH)
  next
    case False
    then have add: "set_add acc x = acc @ [x]" by (simp add: set_add_def)
    have "filter (\<lambda>y. y \<notin> set (acc @ [x])) xs = filter (\<lambda>y. y \<noteq> x) (filter (\<lambda>y. y \<notin> set acc) xs)"
      by (induction xs) auto
    with False add show ?thesis by (simp add: Cons.IH)
  qed
qed

lemma new_Set_first_occurrences: "new_Set xs = first_occurrences xs"
  by (simp add: new_Set_def foldl_set_add)

lemma set_first_occurrences: "set (first_occurrences xs) = set xs"
  by (induction xs rule: first_occurrences.induct) auto

lemma distinct_first_occurrences: "distinct (first_occurrences xs)"
  by (induction xs rule: first_occurrences.induct) (auto simp: set_first_occurrences)

lemma subseq_first_occurrences: "subseq (first_occurrences xs) xs"
proof (induction xs rule: first_occurrences.induct)
  case 1
  show ?case by simp
next
  case (2 x xs)
  have "subseq (filter (\<lambda>y. y \<noteq> x) xs) xs" by simp
  with 2 have "subseq (first_occurrences (filter (\<lambda>y. y \<noteq> x) xs)) xs"
    using subseq_order.order_trans by blast
  then show ?case by simp
qed

lemma slice_0: "slice 0 n xs = take n xs"
  by (simp add: slice_def)










subsection \<open>The search for the link marker\<close>

lemma match_here_Some:
  "match_here s = Some g \<longleftrightarrow>
     take 6 s = lit ''Link: '' \<and> g = rest_of_line (drop 6 s) \<and> g \<noteq> []"
  by (auto simp: match_here_def rest_of_line_def split: list.splits)

lemma rest_of_line_empty:
  "rest_of_line s = [] \<longleftrightarrow> s = [] \<or> isLineTerminator (hd s)"
  by (cases s) (simp_all add: rest_of_line_def)

lemma match_here_drop:
  "match_here (drop k text) = None \<longleftrightarrow> \<not> link_pattern_at text k"
proof -
  have "rest_of_line (drop (k + 6) text) \<noteq> [] \<longleftrightarrow>
        k + 6 < length text \<and> \<not> isLineTerminator (text ! (k + 6))"
    by (auto simp: rest_of_line_empty hd_drop_conv_nth)
  moreover have "match_here (drop k text) = None \<longleftrightarrow>
        \<not> (take 6 (drop k text) = lit ''Link: '' \<and> rest_of_line (drop (k + 6) text) \<noteq> [])"
    using match_here_Some [of "drop k text"]
    by (cases "match_here (drop k text)") (auto simp: add.commute)
  ultimately show ?thesis
    by (simp add: link_pattern_at_def)
qed

lemma regex_match_None:
  "regex_match s = None \<longleftrightarrow> (\<forall>k. match_here (drop k s) = None)"
proof (induction s)
  case Nil
  show ?case by simp
next
  case (Cons c cs)
  have "(\<forall>k. match_here (drop k (c # cs)) = None) \<longleftrightarrow>
        match_here (c # cs) = None \<and> (\<forall>k. match_here (drop k cs) = None)"
    (is "?L \<longleftrightarrow> ?R")
  proof
    assume l: ?L
    have "match_here (drop 0 (c # cs)) = None" using l by blast
    moreover have "match_here (drop (Suc k) (c # cs)) = None" for k using l by blast
    ultimately show ?R by simp
  next
    assume r: ?R
    show ?L
    proof
      fix k show "match_here (drop k (c # cs)) = None"
        using r by (cases k) simp_all
    qed
  qed
  with Cons show ?case by (simp split: option.splits)
qed

lemma regex_match_first:
  "match_here (drop k s) = Some g \<Longrightarrow> (\<forall>j<k. match_here (drop j s) = None) \<Longrightarrow>
   regex_match s = Some g"
proof (induction s arbitrary: k)
  case Nil
  then show ?case by simp
next
  case (Cons c cs)
  show ?case
  proof (cases k)
    case 0
    with Cons.prems show ?thesis by simp
  next
    case (Suc k')
    have here: "match_here (c # cs) = None"
      using Cons.prems(2) [rule_format, of 0] Suc by simp
    have "\<forall>j<k'. match_here (drop j cs) = None"
    proof (intro allI impI)
      fix j assume "j < k'"
      then show "match_here (drop j cs) = None"
        using Cons.prems(2) [rule_format, of "Suc j"] Suc by simp
    qed
    moreover have "match_here (drop k' cs) = Some g"
      using Cons.prems(1) Suc by simp
    ultimately have "regex_match cs = Some g"
      by (rule Cons.IH [rotated])
    with here show ?thesis by simp
  qed
qed

lemma extract_none:
  "(\<forall>k. \<not> link_pattern_at text k) \<Longrightarrow> extractDocumentLink text = []"
proof -
  assume "\<forall>k. \<not> link_pattern_at text k"
  then have "regex_match text = None"
    by (simp add: regex_match_None match_here_drop)
  then show ?thesis by (simp add: extractDocumentLink_def lit_def)
qed

lemma extract_first:
  assumes "link_pattern_at text k" and "\<forall>j<k. \<not> link_pattern_at text j"
  shows "extractDocumentLink text = rest_of_line (drop (k + 6) text)"
proof -
  obtain g where g: "match_here (drop k text) = Some g"
    using assms(1) match_here_drop [of k "text"] by (cases "match_here (drop k text)") auto
  then have "g = rest_of_line (drop (k + 6) text)"
    by (simp add: match_here_Some add.commute)
  moreover have "regex_match text = Some g"
    using g assms(2) by (intro regex_match_first [of k]) (simp_all add: match_here_drop)
  ultimately show ?thesis by (simp add: extractDocumentLink_def)
qed

lemma length_lit_Link: "length (lit ''Link: '') = 6"
  by (simp add: lit_def)

lemma rest_of_line_line:
  "\<forall>c\<in>set url. \<not> isLineTerminator c \<Longrightarrow> post = [] \<or> isLineTerminator (hd post) \<Longrightarrow>
   rest_of_line (url @ post) = url"
  by (cases post) (auto simp: rest_of_line_def)

lemma extract_line:
  assumes "url \<noteq> []" and "\<forall>c\<in>set url. \<not> isLineTerminator c"
      and "post = [] \<or> isLineTerminator (hd post)"
      and "\<forall>j<length pre. \<not> link_pattern_at (pre @ lit ''Link: '' @ url @ post) j"
  shows "extractDocumentLink (pre @ lit ''Link: '' @ url @ post) = url"
proof -
  let ?t = "pre @ lit ''Link: '' @ url @ post"
  have d: "drop (length pre) ?t = lit ''Link: '' @ url @ post" by simp
  have d6: "drop (length pre + 6) ?t = url @ post"
    using length_lit_Link by simp
  have "?t ! (length pre + 6) = hd url"
    using assms(1) d6 by (metis hd_append2 hd_drop_conv_nth drop_eq_Nil2 append_is_Nil_conv not_le)
  moreover have "length pre + 6 < length ?t"
    using assms(1) length_lit_Link by (cases url) simp_all
  moreover have "take 6 (drop (length pre) ?t) = lit ''Link: ''"
    using length_lit_Link by (simp only: d) simp
  ultimately have "link_pattern_at ?t (length pre)"
    using assms(1,2) by (simp add: link_pattern_at_def)
  then have "extractDocumentLink ?t = rest_of_line (drop (length pre + 6) ?t)"
    using assms(4) by (rule extract_first)
  then show ?thesis
    using rest_of_line_line [OF assms(2,3)] by (simp only: d6)
qed



subsection \<open>Values, keys and vectors\<close>

lemma keys_distinct: "lit ''pageContent'' \<noteq> lit ''docLink''"
  by (simp add: lit_def)

lemma metadata_keys_distinct:
  "lit ''loc'' \<noteq> lit ''pageContent''" "lit ''loc'' \<noteq> lit ''txtPath''"
  "lit ''loc'' \<noteq> lit ''docLink''" "lit ''pageContent'' \<noteq> lit ''txtPath''"
  "lit ''pageContent'' \<noteq> lit ''docLink''" "lit ''txtPath'' \<noteq> lit ''docLink''"
  by (simp_all add: lit_def)

lemma nullish_iff: "nullish v \<longleftrightarrow> v = JUndefined \<or> v = JNull"
  by (cases v) simp_all

lemma formatMatch_frame: "formatMatch m = m\<lparr>metadata := metadata (formatMatch m)\<rparr>"
  by (simp add: formatMatch_def split: option.splits)

lemma list_of_three: "length xs = 3 \<Longrightarrow> xs = [xs ! 0, xs ! 1, xs ! 2]"
  by (cases xs; cases "tl xs"; cases "tl (tl xs)") auto

lemma count_list_distinct:
  "distinct xs \<Longrightarrow> count_list xs x = (if x \<in> set xs then 1 else 0)"
  by (induction xs) auto

lemma processDocument_success:
  assumes "createDocuments [pageContent doc] = Inr chunks"
    and "embedDocuments openAIApiKey
           (map (\<lambda>chunk. replace_newlines (pageContent chunk)) chunks) = Inr embeddingsArrays"
  shows "processDocument numberToString JSON_stringify createDocuments embedDocuments doc
           openAIApiKey
         = Inr (map (buildVector numberToString JSON_stringify
                       (get_property (metadata_doc doc) (lit ''source''))
                       (extractDocumentLink (pageContent doc)) embeddingsArrays)
                  (enumerate 0 chunks))"
  using assms by (simp add: processDocument_def Let_def)


section \<open>The claims\<close>

text \<open>
  Claim C1, as amended. \<^verbatim>\<open>text.match(/Link: (.+)/)\<close> finds the leftmost place where
  the marker \<^verbatim>\<open>Link: \<close> is followed by at least one character of the same line, and
  the link is the rest of that line. So a text whose first such place is a line
  \<^verbatim>\<open>Link: url\<close> gives \<open>url\<close>; a text with no such place gives the empty string; and
  of several occurrences only the first counts, whatever stands in later lines. A line
  \<^verbatim>\<open>Link: url\<close> that comes after another occurrence does not decide the result.
\<close>

theorem extractDocumentLink_first_link_line:
  "(\<forall>pre url post.
      url \<noteq> [] \<and> (\<forall>c\<in>set url. \<not> isLineTerminator c) \<and>
      (post = [] \<or> isLineTerminator (hd post)) \<and>
      (\<forall>j<length pre. \<not> link_pattern_at (pre @ lit ''Link: '' @ url @ post) j)
      \<longrightarrow> extractDocumentLink (pre @ lit ''Link: '' @ url @ post) = url)
   \<and> (\<forall>t. (\<forall>k. \<not> link_pattern_at t k) \<longrightarrow> extractDocumentLink t = lit '''')
   \<and> (\<forall>t k. link_pattern_at t k \<and> (\<forall>j<k. \<not> link_pattern_at t j)
        \<longrightarrow> extractDocumentLink t = rest_of_line (drop (k + 6) t))"
proof (intro conjI allI impI)
  fix pre url post :: jsstring
  assume "url \<noteq> [] \<and> (\<forall>c\<in>set url. \<not> isLineTerminator c) \<and>
      (post = [] \<or> isLineTerminator (hd post)) \<and>
      (\<forall>j<length pre. \<not> link_pattern_at (pre @ lit ''Link: '' @ url @ post) j)"
  then show "extractDocumentLink (pre @ lit ''Link: '' @ url @ post) = url"
    by (intro extract_line) simp_all
next
  fix t assume "\<forall>k. \<not> link_pattern_at t k"
  then show "extractDocumentLink t = lit ''''"
    by (simp add: extract_none lit_def)
next
  fix t k assume "link_pattern_at t k \<and> (\<forall>j<k. \<not> link_pattern_at t j)"
  then show "extractDocumentLink t = rest_of_line (drop (k + 6) t)"
    by (intro extract_first) simp_all
qed

theorem extractDocumentLink_first_link_line_witness:
  "extractDocumentLink
     (lit ''Title'' @ [newline] @ lit ''Link: https://x'' @ [newline] @ lit ''Link: https://y'')
     = lit ''https://x''
   \<and> extractDocumentLink (lit ''Hello world'') = lit ''''
   \<and> extractDocumentLink (lit ''See Link: a'' @ [newline] @ lit ''Link: https://x'') = lit ''a''"
proof -
  let ?pre = "lit ''Title'' @ [newline]"
  let ?url = "lit ''https://x''"
  let ?post = "[newline] @ lit ''Link: https://y''"
  have "\<forall>j\<in>set [0..<6]. \<not> link_pattern_at (?pre @ lit ''Link: '' @ ?url @ ?post) j"
    by code_simp
  then have "\<forall>j<length ?pre. \<not> link_pattern_at (?pre @ lit ''Link: '' @ ?url @ ?post) j"
    by (simp add: lit_def)
  moreover have "?url \<noteq> []" "\<forall>c\<in>set ?url. \<not> isLineTerminator c"
      "?post = [] \<or> isLineTerminator (hd ?post)"
    by (simp_all add: lit_def isLineTerminator_def newline_def)
  ultimately have a: "extractDocumentLink (?pre @ lit ''Link: '' @ ?url @ ?post) = ?url"
    using extractDocumentLink_first_link_line [THEN conjunct1, rule_format, of ?url ?post ?pre]
    by blast
  have "\<forall>k. \<not> link_pattern_at (lit ''Hello world'') k"
  proof
    fix k
    have "k < 5 \<Longrightarrow> k \<in> set [0..<5]" by simp
    moreover have "\<forall>j\<in>set [0..<5]. \<not> link_pattern_at (lit ''Hello world'') j" by code_simp
    ultimately show "\<not> link_pattern_at (lit ''Hello world'') k"
      by (cases "k < 5") (auto simp: link_pattern_at_def lit_def)
  qed
  then have b: "extractDocumentLink (lit ''Hello world'') = lit ''''"
    using extractDocumentLink_first_link_line [THEN conjunct2, THEN conjunct1, rule_format]
    by blast
  let ?t = "lit ''See Link: a'' @ [newline] @ lit ''Link: https://x''"
  have "link_pattern_at ?t 4" by code_simp
  moreover have "\<forall>j\<in>set [0..<4]. \<not> link_pattern_at ?t j" by code_simp
  then have "\<forall>j<4. \<not> link_pattern_at ?t j" by simp
  ultimately have "extractDocumentLink ?t = rest_of_line (drop (4 + 6) ?t)"
    using extractDocumentLink_first_link_line [THEN conjunct2, THEN conjunct2, rule_format, of ?t 4]
    by blast
  moreover have "rest_of_line (drop (4 + 6) ?t) = lit ''a''"
    by (simp add: rest_of_line_def lit_def newline_def isLineTerminator_def)
  ultimately have c: "extractDocumentLink ?t = lit ''a''" by simp
  from a b c show ?thesis by (simp add: lit_def)
qed

text \<open>
  Claim C1, as first stated, fails: a text can contain a line \<^verbatim>\<open>Link: https://x\<close> and
  still give another link. In the two lines \<^verbatim>\<open>Link: a\<close> and \<^verbatim>\<open>Link: https://x\<close> the
  search stops at the first line and the link is \<^verbatim>\<open>a\<close>.
\<close>

theorem extractDocumentLink_later_line_counterexample:
  "extractDocumentLink (lit ''Link: a'' @ [newline] @ lit ''Link: https://x'') = lit ''a''
   \<and> extractDocumentLink (lit ''Link: a'' @ [newline] @ lit ''Link: https://x'')
       \<noteq> lit ''https://x''"
proof -
  have "extractDocumentLink (lit ''Link: a'' @ [newline] @ lit ''Link: https://x'') = lit ''a''"
    by code_simp
  moreover have "lit ''a'' \<noteq> lit ''https://x''"
    by (simp add: lit_def)
  ultimately show ?thesis by simp
qed

text \<open>
  Claim C3. The handler's \<^verbatim>\<open>[...new Set(links)]\<close> is the order-preserving
  deduplication in which the first occurrence wins: it has no duplicates, the same
  elements as the input, and is a subsequence of it. The rendered links are its first
  three elements, and the list a, b, a, c, b gives exactly a, b, c.
\<close>

theorem handleReadCommand_top_links:
  "distinctDocumentLinks links = first_occurrences links
   \<and> distinct (distinctDocumentLinks links)
   \<and> set (distinctDocumentLinks links) = set links
   \<and> subseq (distinctDocumentLinks links) links
   \<and> selectedDocumentLinks links = take 3 (first_occurrences links)
   \<and> selectedDocumentLinks [lit ''a'', lit ''b'', lit ''a'', lit ''c'', lit ''b'']
       = [lit ''a'', lit ''b'', lit ''c'']
   \<and> handleReadCommand (\<lambda>client index q. Inr (Some result)) question pineconeClient
         pineconeTestIndex d
       = channel_send
           ([newline] @ lit ''**Answer:**'' @ [newline] @ lit '' '' @ answer result @ [newline]
              @ lit ''**Useful resources:**'' @ [newline]
              @ join [newline]
                  (map renderLink
                     (enumerate 0 (take 3 (first_occurrences (documentLinks result))))))
           d"
proof -
  have a: "distinctDocumentLinks xs = first_occurrences xs" for xs
    by (simp add: distinctDocumentLinks_def new_Set_first_occurrences)
  have b: "selectedDocumentLinks xs = take 3 (first_occurrences xs)" for xs
    by (simp add: selectedDocumentLinks_def slice_0 a)
  have c: "selectedDocumentLinks [lit ''a'', lit ''b'', lit ''a'', lit ''c'', lit ''b'']
       = [lit ''a'', lit ''b'', lit ''c'']"
    by (simp add: b lit_def)
  show ?thesis
    by (simp only: a b [symmetric] c distinct_first_occurrences set_first_occurrences
          subseq_first_occurrences handleReadCommand_def linksString_def sum.case option.case
          simp_thms)
qed

theorem handleReadCommand_top_links_witness:
  "selectedDocumentLinks [lit ''x'', lit ''x'', lit ''y'', lit ''z'', lit ''y'', lit ''w'']
     = [lit ''x'', lit ''y'', lit ''z'']
   \<and> sent (handleReadCommand (\<lambda>client index q. Inr (Some \<lparr>answer = lit ''ok'',
              documentLinks = [lit ''a'', lit ''b'', lit ''a'', lit ''c'', lit ''b'', lit ''d'']\<rparr>))
            (lit ''why'') () (lit ''idx'') \<lparr>sent = [], console_error = ([] :: (jsstring \<times> unit) list)\<rparr>)
     = [[newline] @ lit ''**Answer:**'' @ [newline] @ lit '' ok'' @ [newline]
          @ lit ''**Useful resources:**'' @ [newline]
          @ lit ''**Link 1:** <a>'' @ [newline] @ lit ''**Link 2:** <b>'' @ [newline]
          @ lit ''**Link 3:** <c>'']"
proof -
  note t = handleReadCommand_top_links
  have "selectedDocumentLinks [lit ''x'', lit ''x'', lit ''y'', lit ''z'', lit ''y'', lit ''w'']
     = [lit ''x'', lit ''y'', lit ''z'']"
    by (simp add: t [THEN conjunct2, THEN conjunct2, THEN conjunct2, THEN conjunct2, THEN conjunct1] lit_def)
  moreover have "sent (handleReadCommand (\<lambda>client index q. Inr (Some \<lparr>answer = lit ''ok'',
              documentLinks = [lit ''a'', lit ''b'', lit ''a'', lit ''c'', lit ''b'', lit ''d'']\<rparr>))
            (lit ''why'') () (lit ''idx'') \<lparr>sent = [], console_error = ([] :: (jsstring \<times> unit) list)\<rparr>)
     = [[newline] @ lit ''**Answer:**'' @ [newline] @ lit '' ok'' @ [newline]
          @ lit ''**Useful resources:**'' @ [newline]
          @ lit ''**Link 1:** <a>'' @ [newline] @ lit ''**Link 2:** <b>'' @ [newline]
          @ lit ''**Link 3:** <c>'']"
    by (simp add: t [THEN conjunct2, THEN conjunct2, THEN conjunct2, THEN conjunct2, THEN conjunct2, THEN conjunct2]
          channel_send_def lit_def enumerate_eq_zip renderLink_def decimal.simps newline_def)
  ultimately show ?thesis by simp
qed



text \<open>
  Claim C2. A query response without matches (the array is absent or empty) makes
  \<^verbatim>\<open>queryLanguageModelWithPineconeResponse\<close> return \<^verbatim>\<open>undefined\<close> without an error:
  it only writes its two log lines, and the list of calls to the completion endpoint
  is unchanged, whatever that endpoint would answer. The same holds when the response
  of the vector store, without matches, first goes through \<^verbatim>\<open>formatPineconeResponse\<close>.
\<close>

theorem no_matches_no_completion:
  "matches queryResponse = None \<or> matches queryResponse = Some [] \<Longrightarrow>
   queryLanguageModelWithPineconeResponse numberToString chain_call queryResponse question
       openAIApiKey w
     = (Inr None,
        w\<lparr>console_log := console_log w @
             [lit ''Asking question: '' @ question @ lit ''...'',
              lit ''Since there are no matches, GPT-3.5 will not be queried.'']\<rparr>)
   \<and> completion_calls
        (snd (queryLanguageModelWithPineconeResponse numberToString chain_call queryResponse
                question openAIApiKey w))
       = completion_calls w
   \<and> (matches (formatPineconeResponse queryResponse) = None \<or>
        matches (formatPineconeResponse queryResponse) = Some [])
   \<and> fst (queryLanguageModelWithPineconeResponse numberToString chain_call
             (formatPineconeResponse queryResponse) question openAIApiKey w) = Inr None
   \<and> completion_calls
        (snd (queryLanguageModelWithPineconeResponse numberToString chain_call
                (formatPineconeResponse queryResponse) question openAIApiKey w))
       = completion_calls w"
  by (auto simp: queryLanguageModelWithPineconeResponse_def found_matches_def log_def Let_def
        formatPineconeResponse_def)

theorem no_matches_no_completion_witness:
  "matches \<lparr>matches = Some ([] :: (nat, unit) scored_vector_scheme list), namespace = None\<rparr> = Some []
   \<and> queryLanguageModelWithPineconeResponse (\<lambda>n :: nat. []) (\<lambda>key content q. Inr (lit ''never asked'') :: unit + jsstring)
        \<lparr>matches = Some ([] :: (nat, unit) scored_vector_scheme list), namespace = None\<rparr>
        (lit ''What is it?'') (lit ''sk'') \<lparr>console_log = [], completion_calls = []\<rparr>
      = (Inr None,
         \<lparr>console_log = [lit ''Asking question: What is it?...'',
                          lit ''Since there are no matches, GPT-3.5 will not be queried.''],
          completion_calls = []\<rparr>)"
proof -
  have h: "matches \<lparr>matches = Some ([] :: (nat, unit) scored_vector_scheme list), namespace = None\<rparr> = Some []"
    by simp
  show ?thesis
    using h no_matches_no_completion [of "\<lparr>matches = Some ([] :: (nat, unit) scored_vector_scheme list), namespace = None\<rparr>"
        "\<lambda>n :: nat. []" "\<lambda>key content q. Inr (lit ''never asked'') :: unit + jsstring"
        "lit ''What is it?''" "lit ''sk''" "\<lparr>console_log = [], completion_calls = []\<rparr>"]
    by (simp add: lit_def)
qed

text \<open>
  Claim C7. When the query pipeline returns \<^verbatim>\<open>undefined\<close>, the handler sends exactly
  \<^verbatim>\<open>No results found for your query.\<close> and nothing else. When the pipeline throws
  \<open>e\<close>, the handler writes \<open>e\<close> to \<^verbatim>\<open>console.error\<close> and sends exactly
  \<^verbatim>\<open>An error occurred while processing your request.\<close>: the message sent is the
  same for every \<open>e\<close>.
\<close>

theorem handleReadCommand_fixed_replies:
  "(queryPineconeVectorStoreAndQueryLLM pineconeClient pineconeTestIndex question = Inr None \<longrightarrow>
      handleReadCommand queryPineconeVectorStoreAndQueryLLM question pineconeClient
          pineconeTestIndex d
        = d\<lparr>sent := sent d @ [lit ''No results found for your query.'']\<rparr>)
   \<and> (\<forall>e. queryPineconeVectorStoreAndQueryLLM pineconeClient pineconeTestIndex question = Inl e \<longrightarrow>
      handleReadCommand queryPineconeVectorStoreAndQueryLLM question pineconeClient
          pineconeTestIndex d
        = d\<lparr>sent := sent d @ [lit ''An error occurred while processing your request.''],
             console_error := console_error d @ [(lit ''Error:'', e)]\<rparr>)"
  by (simp add: handleReadCommand_def channel_send_def)

theorem handleReadCommand_fixed_replies_witness:
  "handleReadCommand (\<lambda>client index q. Inr None :: jsstring + jsstring answer_result option)
       (lit ''why'') () (lit ''idx'') \<lparr>sent = [], console_error = []\<rparr>
     = \<lparr>sent = [lit ''No results found for your query.''], console_error = []\<rparr>
   \<and> handleReadCommand (\<lambda>client index q. Inl (lit ''ECONNRESET 10.0.0.7'') :: jsstring + jsstring answer_result option)
       (lit ''why'') () (lit ''idx'') \<lparr>sent = [], console_error = []\<rparr>
     = \<lparr>sent = [lit ''An error occurred while processing your request.''],
        console_error = [(lit ''Error:'', lit ''ECONNRESET 10.0.0.7'')]\<rparr>"
  using handleReadCommand_fixed_replies [THEN conjunct1, rule_format,
      of "\<lambda>client index q. Inr None :: jsstring + jsstring answer_result option" "()" "lit ''idx''"
         "lit ''why''" "\<lparr>sent = [], console_error = []\<rparr>"]
    handleReadCommand_fixed_replies [THEN conjunct2, rule_format,
      of "\<lambda>client index q. Inl (lit ''ECONNRESET 10.0.0.7'') :: jsstring + jsstring answer_result option"
         "()" "lit ''idx''" "lit ''why''" "lit ''ECONNRESET 10.0.0.7''" "\<lparr>sent = [], console_error = []\<rparr>"]
  by simp

text \<open>
  Claim C5. \<^verbatim>\<open>formatPineconeResponse\<close> maps \<^verbatim>\<open>formatMatch\<close> over the matches. A
  match whose metadata has both keys \<^verbatim>\<open>pageContent\<close> and \<^verbatim>\<open>docLink\<close> keeps
  everything but its metadata, which becomes the object with exactly these two keys and
  their old values. Any other match (no metadata, or one of the keys missing) is
  returned as it is.
\<close>

theorem formatPineconeResponse_normalizes:
  "(\<forall>ms. matches r = Some ms \<longrightarrow>
       matches (formatPineconeResponse r) = Some (map formatMatch ms))
   \<and> (\<forall>md p d. metadata m = Some md \<and> md (lit ''pageContent'') = Some p \<and>
          md (lit ''docLink'') = Some d \<longrightarrow>
        formatMatch m = m\<lparr>metadata := Some [lit ''pageContent'' \<mapsto> p, lit ''docLink'' \<mapsto> d]\<rparr>
        \<and> (\<exists>md'. metadata (formatMatch m) = Some md'
              \<and> dom md' = {lit ''pageContent'', lit ''docLink''}
              \<and> md' (lit ''pageContent'') = Some p \<and> md' (lit ''docLink'') = Some d))
   \<and> (metadata m = None \<or>
        (\<exists>md. metadata m = Some md \<and>
           (md (lit ''pageContent'') = None \<or> md (lit ''docLink'') = None)) \<longrightarrow>
        formatMatch m = m)"
proof (intro conjI allI impI)
  fix ms assume "matches r = Some ms"
  then show "matches (formatPineconeResponse r) = Some (map formatMatch ms)"
    by (simp add: formatPineconeResponse_def)
next
  fix md p d
  assume h: "metadata m = Some md \<and> md (lit ''pageContent'') = Some p \<and>
          md (lit ''docLink'') = Some d"
  then show eq: "formatMatch m
      = m\<lparr>metadata := Some [lit ''pageContent'' \<mapsto> p, lit ''docLink'' \<mapsto> d]\<rparr>"
    by (simp add: formatMatch_def has_property_def get_property_def)
  have "dom [lit ''pageContent'' \<mapsto> p, lit ''docLink'' \<mapsto> d]
      = {lit ''pageContent'', lit ''docLink''}"
    by auto
  moreover have "[lit ''pageContent'' \<mapsto> p, lit ''docLink'' \<mapsto> d] (lit ''pageContent'') = Some p"
    using keys_distinct by simp
  ultimately show "\<exists>md'. metadata (formatMatch m) = Some md'
              \<and> dom md' = {lit ''pageContent'', lit ''docLink''}
              \<and> md' (lit ''pageContent'') = Some p \<and> md' (lit ''docLink'') = Some d"
    by (simp add: eq)
next
  assume "metadata m = None \<or>
        (\<exists>md. metadata m = Some md \<and>
           (md (lit ''pageContent'') = None \<or> md (lit ''docLink'') = None))"
  then show "formatMatch m = m"
    by (auto simp: formatMatch_def has_property_def)
qed

theorem formatPineconeResponse_normalizes_witness:
  "formatMatch
     \<lparr>id' = lit ''a.txt_0'', values' = Some [1, 2 :: nat],
      metadata = Some [lit ''txtPath'' \<mapsto> JStr (lit ''a.txt''),
                       lit ''pageContent'' \<mapsto> JStr (lit ''hello''),
                       lit ''docLink'' \<mapsto> JStr (lit ''https://x'')],
      score = Some 9\<rparr>
   = \<lparr>id' = lit ''a.txt_0'', values' = Some [1, 2 :: nat],
      metadata = Some [lit ''pageContent'' \<mapsto> JStr (lit ''hello''),
                       lit ''docLink'' \<mapsto> JStr (lit ''https://x'')],
      score = Some 9\<rparr>
   \<and> formatMatch
     \<lparr>id' = lit ''b.txt_0'', values' = None,
      metadata = Some [lit ''pageContent'' \<mapsto> JStr (lit ''hello'') :: nat jsvalue],
      score = None\<rparr>
   = \<lparr>id' = lit ''b.txt_0'', values' = None,
      metadata = Some [lit ''pageContent'' \<mapsto> JStr (lit ''hello'')],
      score = None\<rparr>
   \<and> matches (formatPineconeResponse
        \<lparr>matches = Some [\<lparr>id' = lit ''c'', values' = None,
                            metadata = (None :: nat object option), score = None\<rparr>],
         namespace = None\<rparr>)
     = Some [\<lparr>id' = lit ''c'', values' = None, metadata = None, score = None\<rparr>]"
proof -
  let ?md1 = "[lit ''txtPath'' \<mapsto> JStr (lit ''a.txt''),
               lit ''pageContent'' \<mapsto> JStr (lit ''hello''),
               lit ''docLink'' \<mapsto> JStr (lit ''https://x'') :: nat jsvalue]"
  let ?m1 = "\<lparr>id' = lit ''a.txt_0'', values' = Some [1, 2 :: nat], metadata = Some ?md1,
              score = Some 9\<rparr>"
  let ?md2 = "[lit ''pageContent'' \<mapsto> JStr (lit ''hello'') :: nat jsvalue]"
  let ?m2 = "\<lparr>id' = lit ''b.txt_0'', values' = None, metadata = Some ?md2, score = None\<rparr>"
  let ?m3 = "\<lparr>id' = lit ''c'', values' = None, metadata = (None :: nat object option),
              score = None\<rparr>"
  let ?r = "\<lparr>matches = Some [?m3], namespace = None\<rparr>"
  have h1: "metadata ?m1 = Some ?md1 \<and> ?md1 (lit ''pageContent'') = Some (JStr (lit ''hello''))
      \<and> ?md1 (lit ''docLink'') = Some (JStr (lit ''https://x''))"
    by (simp add: lit_def)
  have h2: "metadata ?m2 = None \<or>
        (\<exists>md. metadata ?m2 = Some md \<and>
           (md (lit ''pageContent'') = None \<or> md (lit ''docLink'') = None))"
    by (simp add: lit_def)
  have h3: "metadata ?m3 = None \<or>
        (\<exists>md. metadata ?m3 = Some md \<and>
           (md (lit ''pageContent'') = None \<or> md (lit ''docLink'') = None))"
    by simp
  have h4: "matches ?r = Some [?m3]" by simp
  note t = formatPineconeResponse_normalizes
  have "formatMatch ?m1 = ?m1\<lparr>metadata := Some [lit ''pageContent'' \<mapsto> JStr (lit ''hello''),
            lit ''docLink'' \<mapsto> JStr (lit ''https://x'')]\<rparr>"
    using t [THEN conjunct2, THEN conjunct1, rule_format, OF h1] by blast
  moreover have "formatMatch ?m2 = ?m2"
    using t [THEN conjunct2, THEN conjunct2, rule_format, OF h2] .
  moreover have "formatMatch ?m3 = ?m3"
    using t [THEN conjunct2, THEN conjunct2, rule_format, OF h3] .
  moreover have "matches (formatPineconeResponse ?r) = Some (map formatMatch [?m3])"
    using t [THEN conjunct1, rule_format, OF h4] .
  ultimately show ?thesis by simp
qed

text \<open>
  Claim C9. \<^verbatim>\<open>formatPineconeResponse\<close> keeps the namespace, keeps an absent list of
  matches absent, and otherwise returns as many matches as it got, the \<open>i\<close>-th made
  from the \<open>i\<close>-th: id, score, values and every further property are unchanged, so
  the result differs from the input match in its metadata at most.
\<close>

theorem formatPineconeResponse_frame:
  "namespace (formatPineconeResponse r) = namespace r
   \<and> (matches r = None \<longrightarrow> matches (formatPineconeResponse r) = None)
   \<and> (\<forall>ms. matches r = Some ms \<longrightarrow>
        (\<exists>ms'. matches (formatPineconeResponse r) = Some ms'
           \<and> length ms' = length ms
           \<and> (\<forall>i<length ms.
                 ms' ! i = formatMatch (ms ! i)
                 \<and> id' (ms' ! i) = id' (ms ! i)
                 \<and> score (ms' ! i) = score (ms ! i)
                 \<and> values' (ms' ! i) = values' (ms ! i)
                 \<and> scored_vector.more (ms' ! i) = scored_vector.more (ms ! i)
                 \<and> ms' ! i = (ms ! i)\<lparr>metadata := metadata (ms' ! i)\<rparr>)))"
proof (intro conjI allI impI)
  show "namespace (formatPineconeResponse r) = namespace r"
    by (simp add: formatPineconeResponse_def)
next
  assume "matches r = None"
  then show "matches (formatPineconeResponse r) = None"
    by (simp add: formatPineconeResponse_def)
next
  fix ms assume ms: "matches r = Some ms"
  have "\<forall>i<length ms.
          map formatMatch ms ! i = formatMatch (ms ! i)
          \<and> id' (map formatMatch ms ! i) = id' (ms ! i)
          \<and> score (map formatMatch ms ! i) = score (ms ! i)
          \<and> values' (map formatMatch ms ! i) = values' (ms ! i)
          \<and> scored_vector.more (map formatMatch ms ! i) = scored_vector.more (ms ! i)
          \<and> map formatMatch ms ! i = (ms ! i)\<lparr>metadata := metadata (map formatMatch ms ! i)\<rparr>"
  proof (intro allI impI)
    fix i assume i: "i < length ms"
    have f: "formatMatch (ms ! i) = (ms ! i)\<lparr>metadata := metadata (formatMatch (ms ! i))\<rparr>"
      by (rule formatMatch_frame)
    have "id' (formatMatch (ms ! i)) = id' (ms ! i)"
      "score (formatMatch (ms ! i)) = score (ms ! i)"
      "values' (formatMatch (ms ! i)) = values' (ms ! i)"
      "scored_vector.more (formatMatch (ms ! i)) = scored_vector.more (ms ! i)"
      by (subst f, simp)+
    with i f show "map formatMatch ms ! i = formatMatch (ms ! i)
          \<and> id' (map formatMatch ms ! i) = id' (ms ! i)
          \<and> score (map formatMatch ms ! i) = score (ms ! i)
          \<and> values' (map formatMatch ms ! i) = values' (ms ! i)
          \<and> scored_vector.more (map formatMatch ms ! i) = scored_vector.more (ms ! i)
          \<and> map formatMatch ms ! i = (ms ! i)\<lparr>metadata := metadata (map formatMatch ms ! i)\<rparr>"
      by simp
  qed
  moreover have "matches (formatPineconeResponse r) = Some (map formatMatch ms)"
    using ms by (simp add: formatPineconeResponse_def)
  ultimately show "\<exists>ms'. matches (formatPineconeResponse r) = Some ms'
           \<and> length ms' = length ms
           \<and> (\<forall>i<length ms.
                 ms' ! i = formatMatch (ms ! i)
                 \<and> id' (ms' ! i) = id' (ms ! i)
                 \<and> score (ms' ! i) = score (ms ! i)
                 \<and> values' (ms' ! i) = values' (ms ! i)
                 \<and> scored_vector.more (ms' ! i) = scored_vector.more (ms ! i)
                 \<and> ms' ! i = (ms ! i)\<lparr>metadata := metadata (ms' ! i)\<rparr>)"
    by simp
qed

theorem formatPineconeResponse_frame_witness:
  "matches
      \<lparr>matches = Some [\<lparr>id' = lit ''a_0'', values' = Some [3 :: nat],
                         metadata = Some [lit ''pageContent'' \<mapsto> JStr (lit ''p''),
                                          lit ''docLink'' \<mapsto> JStr (lit ''u''),
                                          lit ''loc'' \<mapsto> JNull],
                         score = Some 1\<rparr>,
                        \<lparr>id' = lit ''b_4'', values' = None, metadata = None, score = Some 0\<rparr>],
       namespace = Some (lit ''ns'')\<rparr>
     = Some [\<lparr>id' = lit ''a_0'', values' = Some [3 :: nat],
                         metadata = Some [lit ''pageContent'' \<mapsto> JStr (lit ''p''),
                                          lit ''docLink'' \<mapsto> JStr (lit ''u''),
                                          lit ''loc'' \<mapsto> JNull],
                         score = Some 1\<rparr>,
                        \<lparr>id' = lit ''b_4'', values' = None, metadata = None, score = Some 0\<rparr>]
   \<and> namespace (formatPineconeResponse
      \<lparr>matches = Some [\<lparr>id' = lit ''a_0'', values' = Some [3 :: nat],
                         metadata = Some [lit ''pageContent'' \<mapsto> JStr (lit ''p''),
                                          lit ''docLink'' \<mapsto> JStr (lit ''u''),
                                          lit ''loc'' \<mapsto> JNull],
                         score = Some 1\<rparr>,
                        \<lparr>id' = lit ''b_4'', values' = None, metadata = None, score = Some 0\<rparr>],
       namespace = Some (lit ''ns'')\<rparr>) = Some (lit ''ns'')
   \<and> (\<exists>ms'. matches (formatPineconeResponse
      \<lparr>matches = Some [\<lparr>id' = lit ''a_0'', values' = Some [3 :: nat],
                         metadata = Some [lit ''pageContent'' \<mapsto> JStr (lit ''p''),
                                          lit ''docLink'' \<mapsto> JStr (lit ''u''),
                                          lit ''loc'' \<mapsto> JNull],
                         score = Some 1\<rparr>,
                        \<lparr>id' = lit ''b_4'', values' = None, metadata = None, score = Some 0\<rparr>],
       namespace = Some (lit ''ns'')\<rparr>) = Some ms'
        \<and> length ms' = 2
        \<and> id' (ms' ! 0) = lit ''a_0'' \<and> score (ms' ! 0) = Some 1 \<and> values' (ms' ! 0) = Some [3]
        \<and> id' (ms' ! 1) = lit ''b_4'' \<and> score (ms' ! 1) = Some 0 \<and> values' (ms' ! 1) = None)"
proof -
  define m1 where "m1 = \<lparr>id' = lit ''a_0'', values' = Some [3 :: nat],
              metadata = Some [lit ''pageContent'' \<mapsto> JStr (lit ''p''),
                               lit ''docLink'' \<mapsto> JStr (lit ''u''),
                               lit ''loc'' \<mapsto> (JNull :: nat jsvalue)],
              score = Some (1 :: nat)\<rparr>"
  define m2 where "m2 = \<lparr>id' = lit ''b_4'', values' = None,
              metadata = (None :: nat object option), score = Some (0 :: nat)\<rparr>"
  define r where "r = \<lparr>matches = Some [m1, m2], namespace = Some (lit ''ns'')\<rparr>"
  have h: "matches r = Some [m1, m2]" by (simp add: r_def)
  have n: "namespace (formatPineconeResponse r) = namespace r"
    by (rule formatPineconeResponse_frame [THEN conjunct1])
  obtain ms' where a: "matches (formatPineconeResponse r) = Some ms'"
    and b: "length ms' = length [m1, m2]"
    and c: "\<And>i. i < length [m1, m2] \<Longrightarrow>
              id' (ms' ! i) = id' ([m1, m2] ! i) \<and> score (ms' ! i) = score ([m1, m2] ! i)
              \<and> values' (ms' ! i) = values' ([m1, m2] ! i)"
    using formatPineconeResponse_frame [of r, THEN conjunct2, THEN conjunct2, rule_format, OF h]
    by blast
  have "id' (ms' ! 0) = id' m1 \<and> score (ms' ! 0) = score m1 \<and> values' (ms' ! 0) = values' m1"
    using c [of 0] by simp
  moreover
  have "id' (ms' ! 1) = id' m2 \<and> score (ms' ! 1) = score m2 \<and> values' (ms' ! 1) = values' m2"
    using c [of 1] by simp
  ultimately have "\<exists>ms'. matches (formatPineconeResponse r) = Some ms'
        \<and> length ms' = 2
        \<and> id' (ms' ! 0) = lit ''a_0'' \<and> score (ms' ! 0) = Some 1 \<and> values' (ms' ! 0) = Some [3]
        \<and> id' (ms' ! 1) = lit ''b_4'' \<and> score (ms' ! 1) = Some 0 \<and> values' (ms' ! 1) = None"
    using a b by (simp add: m1_def m2_def)
  moreover have "namespace (formatPineconeResponse r) = Some (lit ''ns'')"
    using n by (simp add: r_def)
  ultimately show ?thesis
    using h unfolding r_def m1_def m2_def by (intro conjI)
qed

text \<open>
  Claim C6. With a non-empty list of matches and a completion call that answers, the
  result carries one document link per match, in the order of the matches: the
  \<open>i\<close>-th link is the \<^verbatim>\<open>docLink\<close> of the \<open>i\<close>-th match, and the empty string when
  that match has no metadata, no such key, or \<^verbatim>\<open>null\<close> or \<^verbatim>\<open>undefined\<close> under it.
  The one completion call made gets, as its context, the \<^verbatim>\<open>pageContent\<close> values of
  the same matches in the same order, joined by a space.
\<close>

theorem documentLinks_follow_matches:
  assumes "matches queryResponse = Some ms" and "ms \<noteq> []"
    and "chain_call openAIApiKey (concatenatedPageContent numberToString ms)
           (instructions @ [newline, newline] @ question) = Inr text"
  shows "\<exists>r w'.
      queryLanguageModelWithPineconeResponse numberToString chain_call queryResponse question
          openAIApiKey w = (Inr (Some r), w')
      \<and> answer r = text
      \<and> length (documentLinks r) = length ms
      \<and> (\<forall>i<length ms.
            documentLinks r ! i =
              (case metadata (ms ! i) of
                 None \<Rightarrow> JStr (lit '''')
               | Some md \<Rightarrow>
                   (case md (lit ''docLink'') of
                      None \<Rightarrow> JStr (lit '''')
                    | Some v \<Rightarrow> if v = JUndefined \<or> v = JNull then JStr (lit '''') else v)))
      \<and> completion_calls w' = completion_calls w @
            [(openAIApiKey,
              join (lit '' '')
                (map (\<lambda>match.
                        case metadata match of
                          None \<Rightarrow> lit ''''
                        | Some md \<Rightarrow>
                            (case md (lit ''pageContent'') of
                               None \<Rightarrow> lit ''''
                             | Some v \<Rightarrow> if v = JUndefined \<or> v = JNull then lit ''''
                                         else toString numberToString v))
                   ms),
              instructions @ [newline, newline] @ question)]"
proof -
  have found: "found_matches queryResponse = Some ms"
    using assms(1,2) by (simp add: found_matches_def)
  have links: "\<forall>i<length ms.
            documentLinks_of ms ! i =
              (case metadata (ms ! i) of
                 None \<Rightarrow> JStr (lit '''')
               | Some md \<Rightarrow>
                   (case md (lit ''docLink'') of
                      None \<Rightarrow> JStr (lit '''')
                    | Some v \<Rightarrow> if v = JUndefined \<or> v = JNull then JStr (lit '''') else v))"
    by (auto simp: documentLinks_of_def nullish_coalesce_def optional_get_def get_property_def
          nullish_iff split: option.splits)
  have content: "concatenatedPageContent numberToString ms =
      join (lit '' '')
        (map (\<lambda>match.
                case metadata match of
                  None \<Rightarrow> lit ''''
                | Some md \<Rightarrow>
                    (case md (lit ''pageContent'') of
                       None \<Rightarrow> lit ''''
                     | Some v \<Rightarrow> if v = JUndefined \<or> v = JNull then lit ''''
                                 else toString numberToString v))
           ms)"
    unfolding concatenatedPageContent_def array_join_def map_map
    by (rule arg_cong [where f = "join (lit '' '')"], rule map_cong [OF refl])
       (auto simp: nullish_coalesce_def optional_get_def get_property_def nullish_iff lit_def
          split: option.splits)
  have "queryLanguageModelWithPineconeResponse numberToString chain_call queryResponse question
          openAIApiKey w
      = (Inr (Some \<lparr>answer = text, documentLinks = documentLinks_of ms\<rparr>),
         log (lit ''Answer: '' @ text)
           ((log (lit ''Found '' @ decimal (length ms) @ lit '' matches...'')
               (log (lit ''Asking question: '' @ question @ lit ''...'') w))
            \<lparr>completion_calls := completion_calls w @
               [(openAIApiKey, concatenatedPageContent numberToString ms,
                 instructions @ [newline, newline] @ question)]\<rparr>))"
    using assms(3)
    by (simp add: queryLanguageModelWithPineconeResponse_def found Let_def log_def)
  moreover have "length (documentLinks_of ms) = length ms"
    by (simp add: documentLinks_of_def)
  ultimately show ?thesis
    using links content by (simp add: log_def)
qed

theorem documentLinks_follow_matches_witness:
  "\<exists>r w'.
      queryLanguageModelWithPineconeResponse (\<lambda>n :: nat. lit ''0'')
          (\<lambda>key content q. Inr (lit ''fine'') :: unit + jsstring)
          \<lparr>matches = Some
             [\<lparr>id' = lit ''a_0'', values' = None,
               metadata = Some [lit ''pageContent'' \<mapsto> JStr (lit ''Alpha''),
                                lit ''docLink'' \<mapsto> JStr (lit ''https://a'')],
               score = None\<rparr>,
              \<lparr>id' = lit ''b_0'', values' = None, metadata = None, score = None\<rparr>,
              \<lparr>id' = lit ''c_0'', values' = None,
               metadata = Some [lit ''pageContent'' \<mapsto> JStr (lit ''Gamma'')],
               score = None\<rparr>],
            namespace = None\<rparr>
          (lit ''why?'') (lit ''sk'') \<lparr>console_log = [], completion_calls = []\<rparr>
        = (Inr (Some r), w')
      \<and> answer r = lit ''fine''
      \<and> documentLinks r = [JStr (lit ''https://a''), JStr (lit ''''), JStr (lit '''')]
      \<and> completion_calls w'
          = [(lit ''sk'', lit ''Alpha  Gamma'', instructions @ [newline, newline] @ lit ''why?'')]"
proof -
  define m1 where "m1 = \<lparr>id' = lit ''a_0'', values' = None,
               metadata = Some [lit ''pageContent'' \<mapsto> JStr (lit ''Alpha''),
                                lit ''docLink'' \<mapsto> (JStr (lit ''https://a'') :: nat jsvalue)],
               score = (None :: nat option)\<rparr>"
  define m2 where "m2 = \<lparr>id' = lit ''b_0'', values' = None,
               metadata = (None :: nat object option), score = (None :: nat option)\<rparr>"
  define m3 where "m3 = \<lparr>id' = lit ''c_0'', values' = None,
               metadata = Some [lit ''pageContent'' \<mapsto> (JStr (lit ''Gamma'') :: nat jsvalue)],
               score = (None :: nat option)\<rparr>"
  define qr where "qr = \<lparr>matches = Some [m1, m2, m3], namespace = None\<rparr>"
  define cc where "cc = (\<lambda>(key :: jsstring) (content :: jsstring) (q :: jsstring).
                           Inr (lit ''fine'') :: unit + jsstring)"
  define w where "w = \<lparr>console_log = [], completion_calls = []\<rparr>"
  have h1: "matches qr = Some [m1, m2, m3]" by (simp add: qr_def)
  have h2: "[m1, m2, m3] \<noteq> []" by simp
  have h3: "cc (lit ''sk'') (concatenatedPageContent (\<lambda>n :: nat. lit ''0'') [m1, m2, m3])
              (instructions @ [newline, newline] @ lit ''why?'') = Inr (lit ''fine'')"
    by (simp add: cc_def)
  obtain r w' where run: "queryLanguageModelWithPineconeResponse (\<lambda>n :: nat. lit ''0'') cc qr
        (lit ''why?'') (lit ''sk'') w = (Inr (Some r), w')"
    and ans: "answer r = lit ''fine''"
    and len: "length (documentLinks r) = length [m1, m2, m3]"
    and nth: "\<And>i. i < length [m1, m2, m3] \<Longrightarrow> documentLinks r ! i =
              (case metadata ([m1, m2, m3] ! i) of
                 None \<Rightarrow> JStr (lit '''')
               | Some md \<Rightarrow>
                   (case md (lit ''docLink'') of
                      None \<Rightarrow> JStr (lit '''')
                    | Some v \<Rightarrow> if v = JUndefined \<or> v = JNull then JStr (lit '''') else v))"
    and calls: "completion_calls w' = completion_calls w @
            [(lit ''sk'',
              join (lit '' '')
                (map (\<lambda>match.
                        case metadata match of
                          None \<Rightarrow> lit ''''
                        | Some md \<Rightarrow>
                            (case md (lit ''pageContent'') of
                               None \<Rightarrow> lit ''''
                             | Some v \<Rightarrow> if v = JUndefined \<or> v = JNull then lit ''''
                                         else toString (\<lambda>n :: nat. lit ''0'') v))
                   [m1, m2, m3]),
              instructions @ [newline, newline] @ lit ''why?'')]"
    using documentLinks_follow_matches [where chain_call = cc and openAIApiKey = "lit ''sk''"
        and numberToString = "\<lambda>n :: nat. lit ''0''" and question = "lit ''why?''" and w = w,
        OF h1 h2 h3]
    by blast
  have "documentLinks r ! 0 = JStr (lit ''https://a'')"
    using nth [of 0] by (simp add: m1_def lit_def)
  moreover have "documentLinks r ! 1 = JStr (lit '''')"
    using nth [of 1] by (simp add: m2_def)
  moreover have "documentLinks r ! 2 = JStr (lit '''')"
    using nth [of 2] by (simp add: m3_def lit_def)
  moreover have "documentLinks r = [documentLinks r ! 0, documentLinks r ! 1, documentLinks r ! 2]"
    using len by (intro list_of_three) simp
  ultimately have links: "documentLinks r = [JStr (lit ''https://a''), JStr (lit ''''), JStr (lit '''')]"
    by simp
  have "completion_calls w'
          = [(lit ''sk'', lit ''Alpha  Gamma'', instructions @ [newline, newline] @ lit ''why?'')]"
    unfolding calls by (simp add: w_def m1_def m2_def m3_def lit_def)
  with run ans links show ?thesis
    unfolding qr_def m1_def m2_def m3_def cc_def w_def by blast
qed

text \<open>
  Claim C8. When the splitter returns the chunks and the embedding endpoint returns
  the embeddings, \<^verbatim>\<open>processDocument\<close> returns one vector per chunk. The \<open>i\<close>-th has
  the id \<^verbatim>\<open><source>_<i>\<close> (the source path, an underscore, \<open>i\<close> in decimal), the
  \<open>i\<close>-th embedding as its values (\<^verbatim>\<open>undefined\<close> if the endpoint returned fewer
  embeddings than chunks), and metadata that holds the stringified \<^verbatim>\<open>loc\<close> of the
  chunk, the chunk's whole text under \<^verbatim>\<open>pageContent\<close>, the source path under
  \<^verbatim>\<open>txtPath\<close> and the link extracted from the document under \<^verbatim>\<open>docLink\<close>; the
  other keys of the chunk's metadata are kept.
\<close>

theorem processDocument_vector_records:
  assumes "createDocuments [pageContent doc] = Inr chunks"
    and "embedDocuments openAIApiKey
           (map (\<lambda>chunk. replace_newlines (pageContent chunk)) chunks) = Inr embeddingsArrays"
  shows "\<exists>vs.
      processDocument numberToString JSON_stringify createDocuments embedDocuments doc
          openAIApiKey = Inr vs
      \<and> length vs = length chunks
      \<and> (\<forall>i<length chunks.
            id' (vs ! i)
              = toString numberToString (get_property (metadata_doc doc) (lit ''source''))
                  @ lit ''_'' @ decimal i
            \<and> (\<forall>path. metadata_doc doc (lit ''source'') = Some (JStr path) \<longrightarrow>
                  id' (vs ! i) = path @ lit ''_'' @ decimal i)
            \<and> values' (vs ! i)
                = (if i < length embeddingsArrays then Some (embeddingsArrays ! i) else None)
            \<and> (\<exists>md. metadata (vs ! i) = Some md
                  \<and> md (lit ''loc'')
                      = Some (JSON_stringify (get_property (metadata_doc (chunks ! i)) (lit ''loc'')))
                  \<and> md (lit ''pageContent'') = Some (JStr (pageContent (chunks ! i)))
                  \<and> md (lit ''txtPath'') = Some (get_property (metadata_doc doc) (lit ''source''))
                  \<and> md (lit ''docLink'') = Some (JStr (extractDocumentLink (pageContent doc)))
                  \<and> (\<forall>k. k \<notin> {lit ''loc'', lit ''pageContent'', lit ''txtPath'', lit ''docLink''}
                        \<longrightarrow> md k = metadata_doc (chunks ! i) k)))"
proof -
  let ?build = "buildVector numberToString JSON_stringify
                  (get_property (metadata_doc doc) (lit ''source''))
                  (extractDocumentLink (pageContent doc)) embeddingsArrays"
  let ?vs = "map ?build (enumerate 0 chunks)"
  have run: "processDocument numberToString JSON_stringify createDocuments embedDocuments doc
          openAIApiKey = Inr ?vs"
    using assms by (rule processDocument_success)
  have nth: "?vs ! i = ?build (i, chunks ! i)" if "i < length chunks" for i
    using that by (simp add: nth_enumerate_eq)
  have every: "\<forall>i<length chunks.
            id' (?vs ! i)
              = toString numberToString (get_property (metadata_doc doc) (lit ''source''))
                  @ lit ''_'' @ decimal i
            \<and> (\<forall>path. metadata_doc doc (lit ''source'') = Some (JStr path) \<longrightarrow>
                  id' (?vs ! i) = path @ lit ''_'' @ decimal i)
            \<and> values' (?vs ! i)
                = (if i < length embeddingsArrays then Some (embeddingsArrays ! i) else None)
            \<and> (\<exists>md. metadata (?vs ! i) = Some md
                  \<and> md (lit ''loc'')
                      = Some (JSON_stringify (get_property (metadata_doc (chunks ! i)) (lit ''loc'')))
                  \<and> md (lit ''pageContent'') = Some (JStr (pageContent (chunks ! i)))
                  \<and> md (lit ''txtPath'') = Some (get_property (metadata_doc doc) (lit ''source''))
                  \<and> md (lit ''docLink'') = Some (JStr (extractDocumentLink (pageContent doc)))
                  \<and> (\<forall>k. k \<notin> {lit ''loc'', lit ''pageContent'', lit ''txtPath'', lit ''docLink''}
                        \<longrightarrow> md k = metadata_doc (chunks ! i) k))"
  proof (intro allI impI)
    fix i assume i: "i < length chunks"
    show "id' (?vs ! i)
              = toString numberToString (get_property (metadata_doc doc) (lit ''source''))
                  @ lit ''_'' @ decimal i
            \<and> (\<forall>path. metadata_doc doc (lit ''source'') = Some (JStr path) \<longrightarrow>
                  id' (?vs ! i) = path @ lit ''_'' @ decimal i)
            \<and> values' (?vs ! i)
                = (if i < length embeddingsArrays then Some (embeddingsArrays ! i) else None)
            \<and> (\<exists>md. metadata (?vs ! i) = Some md
                  \<and> md (lit ''loc'')
                      = Some (JSON_stringify (get_property (metadata_doc (chunks ! i)) (lit ''loc'')))
                  \<and> md (lit ''pageContent'') = Some (JStr (pageContent (chunks ! i)))
                  \<and> md (lit ''txtPath'') = Some (get_property (metadata_doc doc) (lit ''source''))
                  \<and> md (lit ''docLink'') = Some (JStr (extractDocumentLink (pageContent doc)))
                  \<and> (\<forall>k. k \<notin> {lit ''loc'', lit ''pageContent'', lit ''txtPath'', lit ''docLink''}
                        \<longrightarrow> md k = metadata_doc (chunks ! i) k))"
      unfolding nth [OF i]
      using metadata_keys_distinct
      by (simp add: buildVector_def index_array_def get_property_def)
  qed
  have len: "length ?vs = length chunks" by simp
  show ?thesis
    by (rule exI [of _ ?vs], intro conjI) (rule run, rule len, rule every)
qed

theorem processDocument_vector_records_witness:
  "\<exists>vs.
      processDocument (\<lambda>n :: nat. lit ''0'') (\<lambda>v. JStr (lit ''LOC''))
          (\<lambda>texts. Inr (map (\<lambda>t. \<lparr>pageContent = t, metadata_doc = [lit ''loc'' \<mapsto> JObj []]\<rparr>) texts)
             :: unit + nat document list)
          (\<lambda>key texts. Inr (map (\<lambda>t. [1, 2, 3]) texts))
          \<lparr>pageContent = lit ''Link: http://doc1'' @ [newline] @ lit ''Hello world, this is a test.'',
           metadata_doc = [lit ''source'' \<mapsto> JStr (lit ''docs/a.txt'')]\<rparr>
          (lit ''sk'') = Inr vs
      \<and> length vs = 1
      \<and> id' (vs ! 0) = lit ''docs/a.txt_0''
      \<and> values' (vs ! 0) = Some [1, 2, 3]
      \<and> (\<exists>md. metadata (vs ! 0) = Some md
            \<and> md (lit ''loc'') = Some (JStr (lit ''LOC''))
            \<and> md (lit ''pageContent'')
                = Some (JStr (lit ''Link: http://doc1'' @ [newline]
                                @ lit ''Hello world, this is a test.''))
            \<and> md (lit ''txtPath'') = Some (JStr (lit ''docs/a.txt''))
            \<and> md (lit ''docLink'') = Some (JStr (lit ''http://doc1'')))"
proof -
  define content where
    "content = lit ''Link: http://doc1'' @ [newline] @ lit ''Hello world, this is a test.''"
  define doc where
    "doc = \<lparr>pageContent = content,
            metadata_doc = [lit ''source'' \<mapsto> (JStr (lit ''docs/a.txt'') :: nat jsvalue)]\<rparr>"
  define chunk where
    "chunk = \<lparr>pageContent = content, metadata_doc = [lit ''loc'' \<mapsto> (JObj [] :: nat jsvalue)]\<rparr>"
  define split where
    "split = (\<lambda>texts. Inr (map (\<lambda>t. \<lparr>pageContent = t,
                 metadata_doc = [lit ''loc'' \<mapsto> (JObj [] :: nat jsvalue)]\<rparr>) texts)
               :: unit + nat document list)"
  define embed where
    "embed = (\<lambda>(key :: jsstring) (texts :: jsstring list).
                Inr (map (\<lambda>t. [1, 2, 3 :: nat]) texts) :: unit + nat list list)"
  have h1: "split [pageContent doc] = Inr [chunk]"
    by (simp add: split_def doc_def chunk_def)
  have h2: "embed (lit ''sk'') (map (\<lambda>chunk. replace_newlines (pageContent chunk)) [chunk])
              = Inr [[1, 2, 3]]"
    by (simp add: embed_def)
  have link: "extractDocumentLink content = lit ''http://doc1''"
    unfolding content_def by code_simp
  have src: "metadata_doc doc (lit ''source'') = Some (JStr (lit ''docs/a.txt''))"
    by (simp add: doc_def)
  note t = processDocument_vector_records [where createDocuments = split
      and embedDocuments = embed and doc = doc and openAIApiKey = "lit ''sk''"
      and numberToString = "\<lambda>n :: nat. lit ''0''"
      and JSON_stringify = "\<lambda>v. JStr (lit ''LOC'')", OF h1 h2]
  from t obtain vs where P:
     "processDocument (\<lambda>n :: nat. lit ''0'') (\<lambda>v. JStr (lit ''LOC'')) split embed doc
          (lit ''sk'') = Inr vs
      \<and> length vs = length [chunk]
      \<and> (\<forall>i<length [chunk].
            id' (vs ! i)
              = toString (\<lambda>n :: nat. lit ''0'') (get_property (metadata_doc doc) (lit ''source''))
                  @ lit ''_'' @ decimal i
            \<and> (\<forall>path. metadata_doc doc (lit ''source'') = Some (JStr path) \<longrightarrow>
                  id' (vs ! i) = path @ lit ''_'' @ decimal i)
            \<and> values' (vs ! i)
                = (if i < length [[1, 2, 3 :: nat]] then Some ([[1, 2, 3]] ! i) else None)
            \<and> (\<exists>md. metadata (vs ! i) = Some md
                  \<and> md (lit ''loc'') = Some (JStr (lit ''LOC''))
                  \<and> md (lit ''pageContent'') = Some (JStr (pageContent ([chunk] ! i)))
                  \<and> md (lit ''txtPath'') = Some (get_property (metadata_doc doc) (lit ''source''))
                  \<and> md (lit ''docLink'') = Some (JStr (extractDocumentLink (pageContent doc)))
                  \<and> (\<forall>k. k \<notin> {lit ''loc'', lit ''pageContent'', lit ''txtPath'', lit ''docLink''}
                        \<longrightarrow> md k = metadata_doc ([chunk] ! i) k)))"
    by (rule exE)
  note run = P [THEN conjunct1]
  note len = P [THEN conjunct2, THEN conjunct1]
  have first: "id' (vs ! 0)
              = toString (\<lambda>n :: nat. lit ''0'') (get_property (metadata_doc doc) (lit ''source''))
                  @ lit ''_'' @ decimal 0
            \<and> (\<forall>path. metadata_doc doc (lit ''source'') = Some (JStr path) \<longrightarrow>
                  id' (vs ! 0) = path @ lit ''_'' @ decimal 0)
            \<and> values' (vs ! 0)
                = (if 0 < length [[1, 2, 3 :: nat]] then Some ([[1, 2, 3]] ! 0) else None)
            \<and> (\<exists>md. metadata (vs ! 0) = Some md
                  \<and> md (lit ''loc'') = Some (JStr (lit ''LOC''))
                  \<and> md (lit ''pageContent'') = Some (JStr (pageContent ([chunk] ! 0)))
                  \<and> md (lit ''txtPath'') = Some (get_property (metadata_doc doc) (lit ''source''))
                  \<and> md (lit ''docLink'') = Some (JStr (extractDocumentLink (pageContent doc)))
                  \<and> (\<forall>k. k \<notin> {lit ''loc'', lit ''pageContent'', lit ''txtPath'', lit ''docLink''}
                        \<longrightarrow> md k = metadata_doc ([chunk] ! 0) k))"
    by (rule P [THEN conjunct2, THEN conjunct2, rule_format]) simp
  note idp = first [THEN conjunct2, THEN conjunct1, rule_format, OF src]
  note vals = first [THEN conjunct2, THEN conjunct2, THEN conjunct1]
  from first obtain md where md: "metadata (vs ! 0) = Some md"
      "md (lit ''loc'') = Some (JStr (lit ''LOC''))"
      "md (lit ''pageContent'') = Some (JStr (pageContent ([chunk] ! 0)))"
      "md (lit ''txtPath'') = Some (get_property (metadata_doc doc) (lit ''source''))"
      "md (lit ''docLink'') = Some (JStr (extractDocumentLink (pageContent doc)))"
    by (elim conjE exE)
  have a: "id' (vs ! 0) = lit ''docs/a.txt_0''"
    using idp by (simp add: decimal.simps lit_def)
  have b: "values' (vs ! 0) = Some [1, 2, 3]"
    using vals by simp
  have c: "\<exists>md. metadata (vs ! 0) = Some md
            \<and> md (lit ''loc'') = Some (JStr (lit ''LOC''))
            \<and> md (lit ''pageContent'') = Some (JStr content)
            \<and> md (lit ''txtPath'') = Some (JStr (lit ''docs/a.txt''))
            \<and> md (lit ''docLink'') = Some (JStr (lit ''http://doc1''))"
    using md link src by (simp add: get_property_def chunk_def doc_def)
  from run len a b c show ?thesis
    unfolding doc_def split_def embed_def content_def by simp
qed

text \<open>
  Claim C10. Empty links are not filtered out. A match without a \<^verbatim>\<open>docLink\<close> gives
  the empty string in the list of document links; in the handler the empty string is
  one of the distinct links, counted once; when it is among the first three distinct
  links it takes a slot, and at slot \<open>n\<close> (counted from 0) its line is
  \<^verbatim>\<open>**Link n+1:** <>\<close>. For the links "", "https://a", "" the rendered text is
  \<^verbatim>\<open>**Link 1:** <>\<close> followed by \<^verbatim>\<open>**Link 2:** <https://a>\<close>.
\<close>

theorem empty_link_is_rendered:
  "(\<forall>i<length ms.
      metadata (ms ! i) = None \<or>
      (\<exists>md. metadata (ms ! i) = Some md \<and>
         (md (lit ''docLink'') = None \<or> md (lit ''docLink'') = Some JUndefined \<or>
          md (lit ''docLink'') = Some JNull))
      \<longrightarrow> documentLinks_of ms ! i = JStr (lit ''''))
   \<and> (lit '''' \<in> set links \<longrightarrow> count_list (distinctDocumentLinks links) (lit '''') = 1)
   \<and> (lit '''' \<in> set (take 3 (first_occurrences links)) \<longrightarrow>
        lit '''' \<in> set (selectedDocumentLinks links))
   \<and> (\<forall>n<length (selectedDocumentLinks links).
        selectedDocumentLinks links ! n = lit '''' \<longrightarrow>
        map renderLink (enumerate 0 (selectedDocumentLinks links)) ! n
          = lit ''**Link '' @ decimal (n + 1) @ lit '':** <>'')
   \<and> linksString [lit '''', lit ''https://a'', lit '''']
        = lit ''**Link 1:** <>'' @ [newline] @ lit ''**Link 2:** <https://a>''"
proof (intro conjI allI impI)
  fix i
  assume "i < length ms"
    and "metadata (ms ! i) = None \<or>
      (\<exists>md. metadata (ms ! i) = Some md \<and>
         (md (lit ''docLink'') = None \<or> md (lit ''docLink'') = Some JUndefined \<or>
          md (lit ''docLink'') = Some JNull))"
  then show "documentLinks_of ms ! i = JStr (lit '''')"
    by (auto simp: documentLinks_of_def nullish_coalesce_def optional_get_def get_property_def)
next
  assume "lit '''' \<in> set links"
  then show "count_list (distinctDocumentLinks links) (lit '''') = 1"
    by (simp add: distinctDocumentLinks_def new_Set_first_occurrences count_list_distinct
          distinct_first_occurrences set_first_occurrences)
next
  assume "lit '''' \<in> set (take 3 (first_occurrences links))"
  then show "lit '''' \<in> set (selectedDocumentLinks links)"
    by (simp add: selectedDocumentLinks_def distinctDocumentLinks_def new_Set_first_occurrences
          slice_0)
next
  fix n
  assume "n < length (selectedDocumentLinks links)"
    and "selectedDocumentLinks links ! n = lit ''''"
  then show "map renderLink (enumerate 0 (selectedDocumentLinks links)) ! n
          = lit ''**Link '' @ decimal (n + 1) @ lit '':** <>''"
    by (simp add: nth_enumerate_eq renderLink_def lit_def)
next
  show "linksString [lit '''', lit ''https://a'', lit '''']
        = lit ''**Link 1:** <>'' @ [newline] @ lit ''**Link 2:** <https://a>''"
    by (simp add: linksString_def selectedDocumentLinks_def distinctDocumentLinks_def
          new_Set_first_occurrences slice_0 enumerate_eq_zip renderLink_def decimal.simps lit_def)
qed

theorem empty_link_is_rendered_witness:
  "documentLinks_of
      [\<lparr>id' = lit ''a_0'', values' = None, metadata = (None :: nat object option),
        score = (None :: nat option)\<rparr>] ! 0 = JStr (lit '''')
   \<and> count_list (distinctDocumentLinks [lit '''', lit ''https://a'', lit '''']) (lit '''') = 1
   \<and> lit '''' \<in> set (selectedDocumentLinks [lit '''', lit ''https://a'', lit ''''])
   \<and> map renderLink (enumerate 0 (selectedDocumentLinks [lit '''', lit ''https://a'', lit ''''])) ! 0
       = lit ''**Link 1:** <>''"
proof -
  define m where "m = \<lparr>id' = lit ''a_0'', values' = None,
      metadata = (None :: nat object option), score = (None :: nat option)\<rparr>"
  define links where "links = [lit '''', lit ''https://a'', lit '''']"
  note t = empty_link_is_rendered [where ms = "[m]" and links = links]
  have sel: "selectedDocumentLinks links = [lit '''', lit ''https://a'']"
    by (simp add: links_def selectedDocumentLinks_def distinctDocumentLinks_def new_Set_def
          set_add_def slice_def lit_def)
  have h1: "0 < length [m]" by simp
  have h2: "metadata ([m] ! 0) = None \<or>
      (\<exists>md. metadata ([m] ! 0) = Some md \<and>
         (md (lit ''docLink'') = None \<or> md (lit ''docLink'') = Some JUndefined \<or>
          md (lit ''docLink'') = Some JNull))"
    by (simp add: m_def)
  have h3: "lit '''' \<in> set links" by (simp add: links_def)
  have h4: "lit '''' \<in> set (take 3 (first_occurrences links))"
    by (simp add: links_def lit_def)
  have h5: "0 < length (selectedDocumentLinks links)" by (simp add: sel)
  have h6: "selectedDocumentLinks links ! 0 = lit ''''" by (simp add: sel)
  have a: "documentLinks_of [m] ! 0 = JStr (lit '''')"
    by (rule t [THEN conjunct1, rule_format, OF h1 h2])
  have b: "count_list (distinctDocumentLinks links) (lit '''') = 1"
    by (rule t [THEN conjunct2, THEN conjunct1, rule_format, OF h3])
  have c: "lit '''' \<in> set (selectedDocumentLinks links)"
    by (rule t [THEN conjunct2, THEN conjunct2, THEN conjunct1, rule_format, OF h4])
  have "map renderLink (enumerate 0 (selectedDocumentLinks links)) ! 0
      = lit ''**Link '' @ decimal (0 + 1) @ lit '':** <>''"
    by (rule t [THEN conjunct2, THEN conjunct2, THEN conjunct2, THEN conjunct1, rule_format,
          OF h5 h6])
  then have d: "map renderLink (enumerate 0 (selectedDocumentLinks links)) ! 0
      = lit ''**Link 1:** <>''"
    by (simp add: decimal.simps lit_def)
  from a b c d show ?thesis
    unfolding m_def links_def by (intro conjI)
qed

end
